theory Spec2Isabelle
  imports Main "HOL-Library.Word"
begin

section \<open>Data of the rig control server\<close>

text \<open>
  The program is one Python class, \<^verbatim>\<open>AsyncRigControlServer\<close>, with two polling loops over
  one TCP connection. A Python \<^verbatim>\<open>bytes\<close> value is a list of bytes, a Python \<^verbatim>\<open>str\<close> is a
  list of Unicode code points, a Python \<^verbatim>\<open>int\<close> is an unbounded integer.
\<close>

type_synonym byte = "8 word"
type_synonym str = "nat list"

text \<open>The exceptions the modelled code can raise.\<close>

datatype error =
    UnicodeDecodeError
  | UnicodeEncodeError
  | ValueError
  | IndexError
  | AttributeError
  | OSError
  | RuntimeError
  | KeyboardInterrupt

text \<open>An ASCII string literal of the source, as a Python \<^verbatim>\<open>str\<close>.\<close>

definition lit :: "string \<Rightarrow> str" where
  "lit s = map of_char s"

section \<open>The library functions used by the response handling\<close>

subsection \<open>\<^verbatim>\<open>bytes.decode('utf-8')\<close>\<close>

text \<open>
  The strict UTF-8 decoder: shortest forms only, no surrogates, nothing above U+10FFFF.
  \<open>None\<close> stands for the \<^verbatim>\<open>UnicodeDecodeError\<close> that Python raises.
\<close>

definition cont :: "byte \<Rightarrow> bool" where
  "cont b \<longleftrightarrow> 0x80 \<le> b \<and> b \<le> 0xBF"

definition second_ok :: "byte \<Rightarrow> byte \<Rightarrow> bool" where
  "second_ok b b1 =
     (if b = 0xE0 then 0xA0 \<le> b1 \<and> b1 \<le> 0xBF
      else if b = 0xED then 0x80 \<le> b1 \<and> b1 \<le> 0x9F
      else if b = 0xF0 then 0x90 \<le> b1 \<and> b1 \<le> 0xBF
      else if b = 0xF4 then 0x80 \<le> b1 \<and> b1 \<le> 0x8F
      else cont b1)"

definition low6 :: "byte \<Rightarrow> nat" where
  "low6 b = unat b - 0x80"

fun decode_utf8 :: "byte list \<Rightarrow> str option" where
  "decode_utf8 [] = Some []"
| "decode_utf8 (b # bs) =
     (if b < 0x80 then map_option ((#) (unat b)) (decode_utf8 bs)
      else if 0xC2 \<le> b \<and> b \<le> 0xDF then
        (case bs of
           b1 # r \<Rightarrow>
             if cont b1
             then map_option ((#) ((unat b - 0xC0) * 64 + low6 b1)) (decode_utf8 r)
             else None
         | _ \<Rightarrow> None)
      else if 0xE0 \<le> b \<and> b \<le> 0xEF then
        (case bs of
           b1 # b2 # r \<Rightarrow>
             if second_ok b b1 \<and> cont b2
             then map_option ((#) (((unat b - 0xE0) * 64 + low6 b1) * 64 + low6 b2))
                    (decode_utf8 r)
             else None
         | _ \<Rightarrow> None)
      else if 0xF0 \<le> b \<and> b \<le> 0xF4 then
        (case bs of
           b1 # b2 # b3 # r \<Rightarrow>
             if second_ok b b1 \<and> cont b2 \<and> cont b3
             then map_option
                    ((#) ((((unat b - 0xF0) * 64 + low6 b1) * 64 + low6 b2) * 64 + low6 b3))
                    (decode_utf8 r)
             else None
         | _ \<Rightarrow> None)
      else None)"

subsection \<open>\<^verbatim>\<open>str.strip()\<close> and \<^verbatim>\<open>str.split('\n')\<close>\<close>

text \<open>
  \<^verbatim>\<open>str.strip()\<close> without argument removes the characters for which \<^verbatim>\<open>str.isspace\<close> holds,
  at both ends. The table is the one of CPython.
\<close>

definition py_isspace :: "nat \<Rightarrow> bool" where
  "py_isspace c \<longleftrightarrow>
     c \<in> set [0x9, 0xA, 0xB, 0xC, 0xD, 0x1C, 0x1D, 0x1E, 0x1F, 0x20, 0x85, 0xA0, 0x1680,
       0x2000, 0x2001, 0x2002, 0x2003, 0x2004, 0x2005, 0x2006, 0x2007, 0x2008, 0x2009,
       0x200A, 0x2028, 0x2029, 0x202F, 0x205F, 0x3000]"

definition py_rstrip :: "str \<Rightarrow> str" where
  "py_rstrip s = rev (dropWhile py_isspace (rev s))"

definition py_strip :: "str \<Rightarrow> str" where
  "py_strip s = py_rstrip (dropWhile py_isspace s)"

text \<open>
  \<^verbatim>\<open>s.split('\n')\<close>: the pieces between the line feeds, never an empty list, so that
  the index \<^verbatim>\<open>[-1]\<close> of the source always exists and is \<open>last\<close>.
\<close>

fun split_nl :: "str \<Rightarrow> str list" where
  "split_nl [] = [[]]"
| "split_nl (c # cs) =
     (if c = 0xA then [] # split_nl cs
      else (c # hd (split_nl cs)) # tl (split_nl cs))"

subsection \<open>\<^verbatim>\<open>int(str)\<close>\<close>

text \<open>
  The first code point of every run of ten decimal digits of the Unicode character
  database (version 14.0.0, the one of CPython 3.11); the digit's value is its offset
  in the run.
\<close>

definition decimal_zeros :: "nat list" where
  "decimal_zeros =
     [0x30, 0x660, 0x6F0, 0x7C0, 0x966, 0x9E6, 0xA66, 0xAE6, 0xB66, 0xBE6, 0xC66, 0xCE6,
      0xD66, 0xDE6, 0xE50, 0xED0, 0xF20, 0x1040, 0x1090, 0x17E0, 0x1810, 0x1946, 0x19D0,
      0x1A80, 0x1A90, 0x1B50, 0x1BB0, 0x1C40, 0x1C50, 0xA620, 0xA8D0, 0xA900, 0xA9D0,
      0xA9F0, 0xAA50, 0xABF0, 0xFF10, 0x104A0, 0x10D30, 0x11066, 0x110F0, 0x11136,
      0x111D0, 0x112F0, 0x11450, 0x114D0, 0x11650, 0x116C0, 0x11730, 0x118E0, 0x11950,
      0x11C50, 0x11D50, 0x11DA0, 0x16A60, 0x16AC0, 0x16B50, 0x1D7CE, 0x1D7D8, 0x1D7E2,
      0x1D7EC, 0x1D7F6, 0x1E140, 0x1E2F0, 0x1E950, 0x1FBF0]"

definition py_todecimal :: "nat \<Rightarrow> nat option" where
  "py_todecimal c =
     (case find (\<lambda>z. z \<le> c \<and> c < z + 10) decimal_zeros of
        None \<Rightarrow> None
      | Some z \<Rightarrow> Some (c - z))"

text \<open>
  The white space that \<^verbatim>\<open>int\<close> skips at both ends: below 127 only what C's
  \<^verbatim>\<open>isspace\<close> accepts, above it what \<^verbatim>\<open>str.isspace\<close> accepts.
\<close>

definition int_isspace :: "nat \<Rightarrow> bool" where
  "int_isspace c \<longleftrightarrow> (if c < 127 then c \<in> set [0x9, 0xA, 0xB, 0xC, 0xD, 0x20] else py_isspace c)"

definition underscore :: nat where
  "underscore = 0x5F"

definition digit_or_underscore :: "nat \<Rightarrow> bool" where
  "digit_or_underscore c \<longleftrightarrow> py_todecimal c \<noteq> None \<or> c = underscore"

text \<open>Two underscores in a row.\<close>

fun double_underscore :: "str \<Rightarrow> bool" where
  "double_underscore (a # b # r) \<longleftrightarrow>
     (a = underscore \<and> b = underscore) \<or> double_underscore (b # r)"
| "double_underscore _ \<longleftrightarrow> False"

definition digit_values :: "str \<Rightarrow> nat list" where
  "digit_values body = map (\<lambda>c. the (py_todecimal c)) (filter (\<lambda>c. c \<noteq> underscore) body)"

definition horner :: "nat list \<Rightarrow> nat" where
  "horner ds = foldl (\<lambda>a d. 10 * a + d) 0 ds"

text \<open>The default of \<^verbatim>\<open>sys.get_int_max_str_digits()\<close>.\<close>

definition int_max_str_digits :: nat where
  "int_max_str_digits = 4300"

text \<open>
  \<^verbatim>\<open>int(s)\<close> in base 10: white space, an optional sign, digits with single underscores
  between them, white space. Anything else is a \<^verbatim>\<open>ValueError\<close>, and so is a number of more
  digits than the conversion limit.
\<close>

definition py_int :: "str \<Rightarrow> error + int" where
  "py_int s =
     (let s1 = dropWhile int_isspace s;
          neg = (s1 \<noteq> [] \<and> hd s1 = 0x2D);
          s2 = (if s1 \<noteq> [] \<and> (hd s1 = 0x2B \<or> hd s1 = 0x2D) then tl s1 else s1);
          body = takeWhile digit_or_underscore s2;
          rest = dropWhile digit_or_underscore s2
      in if body = [] \<or> hd body = underscore \<or> last body = underscore
            \<or> double_underscore body
            \<or> int_max_str_digits < length (digit_values body)
            \<or> dropWhile int_isspace rest \<noteq> []
         then Inl ValueError
         else Inr ((if neg then - 1 else 1) * int (horner (digit_values body))))"

section \<open>\<^verbatim>\<open>get_rig_data\<close>: the response handling\<close>

text \<open>
  Lines 41 to 53 of \<^verbatim>\<open>get_rig_data\<close>, on the bytes that \<^verbatim>\<open>reader.read(1024)\<close> returned
  (at most 1024 of them). The decoding is outside the \<^verbatim>\<open>try\<close>, so its error propagates;
  the \<^verbatim>\<open>ValueError\<close> of \<^verbatim>\<open>int\<close> is caught and becomes the result \<^verbatim>\<open>None\<close>.
\<close>

definition frequency_str :: "str \<Rightarrow> str" where
  "frequency_str text = py_strip (last (split_nl (py_strip text)))"

definition get_rig_data_response :: "byte list \<Rightarrow> error + int option" where
  "get_rig_data_response response =
     (case decode_utf8 response of
        None \<Rightarrow> Inl UnicodeDecodeError
      | Some text \<Rightarrow>
          (case py_int (frequency_str text) of
             Inr frequency \<Rightarrow> Inr (Some frequency)
           | Inl ValueError \<Rightarrow> Inr None
           | Inl e \<Rightarrow> Inl e))"

subsection \<open>\<^verbatim>\<open>str(int)\<close> and \<^verbatim>\<open>str.encode('utf-8')\<close>\<close>

text \<open>The decimal digits of a natural number, most significant first.\<close>

fun nat_digits :: "nat \<Rightarrow> str" where
  "nat_digits n = (if n < 10 then [0x30 + n] else nat_digits (n div 10) @ [0x30 + n mod 10])"

declare nat_digits.simps [simp del]

text \<open>What an f-string puts for \<^verbatim>\<open>{frequency}\<close>: the decimal form, with a minus sign below zero.\<close>

definition py_str :: "int \<Rightarrow> str" where
  "py_str n = (if n < 0 then 0x2D # nat_digits (nat (- n)) else nat_digits (nat n))"

text \<open>
  The UTF-8 encoding of one code point; \<open>None\<close> for a surrogate, which Python refuses with
  \<^verbatim>\<open>UnicodeEncodeError\<close>, and for a number that is no code point.
\<close>

definition encode_char :: "nat \<Rightarrow> byte list option" where
  "encode_char c =
     (if c < 0x80 then Some [of_nat c]
      else if c < 0x800 then Some [of_nat (0xC0 + c div 64), of_nat (0x80 + c mod 64)]
      else if c < 0x10000 then
        (if 0xD800 \<le> c \<and> c \<le> 0xDFFF then None
         else Some [of_nat (0xE0 + c div 4096), of_nat (0x80 + c div 64 mod 64),
                    of_nat (0x80 + c mod 64)])
      else if c < 0x110000 then
        Some [of_nat (0xF0 + c div 262144), of_nat (0x80 + c div 4096 mod 64),
              of_nat (0x80 + c div 64 mod 64), of_nat (0x80 + c mod 64)]
      else None)"

fun encode_utf8 :: "str \<Rightarrow> error + byte list" where
  "encode_utf8 [] = Inr []"
| "encode_utf8 (c # cs) =
     (case encode_char c of
        None \<Rightarrow> Inl UnicodeEncodeError
      | Some bs \<Rightarrow> (case encode_utf8 cs of Inl e \<Rightarrow> Inl e | Inr r \<Rightarrow> Inr (bs @ r)))"

section \<open>The server object and its effects\<close>

text \<open>
  What the program does to the outside, in the order it does it: opening the connection,
  \<^verbatim>\<open>writer.write\<close> with its bytes, \<^verbatim>\<open>reader.read\<close>, \<^verbatim>\<open>pygame.event.pump\<close>, \<^verbatim>\<open>writer.close\<close>
  and the completion of \<^verbatim>\<open>writer.wait_closed\<close>. Console output and the sleeps are left out.
\<close>

datatype effect = Connect | Write "byte list" | Read | Pump | Close | WaitClosed

text \<open>
  The attributes of \<^verbatim>\<open>AsyncRigControlServer\<close> that the loops use. \<open>joystick\<close> says whether
  \<^verbatim>\<open>self.joystick\<close> is a device (not \<^verbatim>\<open>None\<close>), \<open>connected\<close> whether \<^verbatim>\<open>primary_reader\<close> and
  \<^verbatim>\<open>primary_writer\<close> have been assigned. \<open>effects\<close> is the log of what was done so far.
\<close>

record server =
  running :: bool
  last_frequency :: "int option"
  joystick :: bool
  connected :: bool
  effects :: "effect list"

text \<open>\<^verbatim>\<open>__init__\<close>, given whether pygame found a joystick.\<close>

definition init :: "bool \<Rightarrow> server" where
  "init has_joystick =
     \<lparr>running = False, last_frequency = None, joystick = has_joystick, connected = False,
      effects = []\<rparr>"

definition do_effect :: "effect \<Rightarrow> server \<Rightarrow> server" where
  "do_effect e srv = srv\<lparr>effects := effects srv @ [e]\<rparr>"

text \<open>\<^verbatim>\<open>writer.write(command.encode('utf-8'))\<close> followed by \<^verbatim>\<open>await writer.drain()\<close>.\<close>

definition write_command :: "str \<Rightarrow> server \<Rightarrow> error + server" where
  "write_command command srv =
     (case encode_utf8 command of
        Inl e \<Rightarrow> Inl e
      | Inr bs \<Rightarrow> Inr (do_effect (Write bs) srv))"

section \<open>\<^verbatim>\<open>get_rig_data\<close>, \<^verbatim>\<open>read_frequency\<close>, \<^verbatim>\<open>set_frequency\<close>\<close>

text \<open>
  What \<^verbatim>\<open>await reader.read(1024)\<close> gives: the bytes received, or the exception of the
  transport.
\<close>

type_synonym read_result = "error + byte list"

definition get_rig_data :: "str \<Rightarrow> read_result \<Rightarrow> server \<Rightarrow> error + (int option \<times> server)" where
  "get_rig_data command rd srv =
     (case write_command command srv of
        Inl e \<Rightarrow> Inl e
      | Inr srv1 \<Rightarrow>
          (case rd of
             Inl e \<Rightarrow> Inl e
           | Inr response \<Rightarrow>
               (case get_rig_data_response response of
                  Inl e \<Rightarrow> Inl e
                | Inr frequency \<Rightarrow> Inr (frequency, do_effect Read srv1))))"

definition read_frequency :: "read_result \<Rightarrow> server \<Rightarrow> error + (int option \<times> server)" where
  "read_frequency rd srv = get_rig_data (lit ''f'' @ [0xA]) rd srv"

definition set_frequency :: "int \<Rightarrow> server \<Rightarrow> error + server" where
  "set_frequency frequency srv = write_command (lit ''F '' @ py_str frequency @ [0xA]) srv"

section \<open>One cycle of \<^verbatim>\<open>sync_frequencies\<close>\<close>

text \<open>
  The body of the \<^verbatim>\<open>while\<close> loop. The test \<^verbatim>\<open>if freq and freq != self.last_frequency\<close> is
  Python truth: \<^verbatim>\<open>None\<close> and \<^verbatim>\<open>0\<close> are both false.
\<close>

definition sync_cycle :: "read_result \<Rightarrow> server \<Rightarrow> error + server" where
  "sync_cycle rd srv =
     (case read_frequency rd srv of
        Inl e \<Rightarrow> Inl e
      | Inr (freq, srv1) \<Rightarrow>
          (case freq of
             None \<Rightarrow> Inr srv1
           | Some f \<Rightarrow>
               if f \<noteq> 0 \<and> Some f \<noteq> last_frequency srv1
               then Inr (srv1\<lparr>last_frequency := Some f\<rparr>)
               else Inr srv1))"

section \<open>One cycle of \<^verbatim>\<open>handle_controller_input\<close>\<close>

definition frequency_steps :: "int list" where
  "frequency_steps = [1000, 12500, 1000000]"

text \<open>
  \<^verbatim>\<open>xs[i]\<close> on a Python list: positions \<open>0 .. len - 1\<close> from the front, \<open>-len .. -1\<close>
  from the back, and \<^verbatim>\<open>IndexError\<close> for every other index.
\<close>

definition py_getitem :: "'a list \<Rightarrow> int \<Rightarrow> error + 'a" where
  "py_getitem xs i =
     (if 0 \<le> i \<and> i < int (length xs) then Inr (xs ! nat i)
      else if - int (length xs) \<le> i \<and> i < 0 then Inr (xs ! nat (int (length xs) + i))
      else Inl IndexError)"

text \<open>
  The two lines that both frequency branches share: the default of 1 MHz when no frequency
  is known yet, then the shift by the active step (\<open>direction\<close> is \<open>-1\<close> for left, \<open>1\<close> for right),
  then \<^verbatim>\<open>set_frequency\<close>.
\<close>

definition shift_frequency :: "int \<Rightarrow> int \<Rightarrow> server \<Rightarrow> error + server" where
  "shift_frequency direction step_index srv =
     (let srv1 = (if last_frequency srv = None then srv\<lparr>last_frequency := Some 1000000\<rparr>
                  else srv)
      in case py_getitem frequency_steps step_index of
           Inl e \<Rightarrow> Inl e
         | Inr step \<Rightarrow>
             (case last_frequency srv1 of
                None \<Rightarrow> Inr srv1
              | Some f \<Rightarrow>
                  let srv2 = srv1\<lparr>last_frequency := Some (f + direction * step)\<rparr>
                  in set_frequency (f + direction * step) srv2))"

text \<open>
  The \<^verbatim>\<open>if\<close>/\<^verbatim>\<open>elif\<close> chain on the four flags. \<open>step_index\<close> is the local variable of
  \<^verbatim>\<open>handle_controller_input\<close>; the result carries its new value.
\<close>

definition dispatch ::
    "bool \<Rightarrow> bool \<Rightarrow> bool \<Rightarrow> bool \<Rightarrow> int \<Rightarrow> server \<Rightarrow> error + (int \<times> server)" where
  "dispatch dpad_left dpad_right dpad_up dpad_down step_index srv =
     (if dpad_left then
        (case shift_frequency (- 1) step_index srv of
           Inl e \<Rightarrow> Inl e | Inr srv1 \<Rightarrow> Inr (step_index, srv1))
      else if dpad_right then
        (case shift_frequency 1 step_index srv of
           Inl e \<Rightarrow> Inl e | Inr srv1 \<Rightarrow> Inr (step_index, srv1))
      else if dpad_up then
        Inr ((step_index + 1) mod int (length frequency_steps), srv)
      else if dpad_down then
        Inr ((step_index - 1) mod int (length frequency_steps), srv)
      else Inr (step_index, srv))"

text \<open>
  The body of the \<^verbatim>\<open>while\<close> loop, given what \<^verbatim>\<open>joystick.get_hat(0)\<close> reports in this cycle
  (a pair of values in \<open>{-1, 0, 1}\<close>).
\<close>

definition input_cycle :: "int \<times> int \<Rightarrow> int \<Rightarrow> server \<Rightarrow> error + (int \<times> server)" where
  "input_cycle hat step_index srv =
     (let srv1 = do_effect Pump srv
      in if joystick srv1 then
           dispatch (fst hat = - 1) (fst hat = 1) (snd hat = 1) (snd hat = - 1) step_index srv1
         else Inr (step_index, srv1))"

section \<open>The two loops side by side, \<^verbatim>\<open>start\<close>, \<^verbatim>\<open>stop\<close> and the main block\<close>

text \<open>
  \<^verbatim>\<open>open_connection\<close>, given what \<^verbatim>\<open>asyncio.open_connection\<close> does: \<open>None\<close> when it
  connects, the exception when it raises. Only a successful call assigns the reader and
  the writer.
\<close>

definition open_connection :: "error option \<Rightarrow> server \<Rightarrow> error + server" where
  "open_connection opening srv =
     (case opening of
        Some e \<Rightarrow> Inl e
      | None \<Rightarrow> Inr (do_effect Connect (srv\<lparr>connected := True\<rparr>)))"

text \<open>
  What happens while \<^verbatim>\<open>asyncio.gather\<close> runs the two loops: a cycle of the sync loop with
  what its read gives, a cycle of the input loop with the hat reading, or a
  \<^verbatim>\<open>KeyboardInterrupt\<close> delivered to the program.
\<close>

datatype event = SyncCycle read_result | InputCycle "int \<times> int" | Interrupt

text \<open>
  How a call ends: with an exception, by returning, or not at all within the events
  that were observed.
\<close>

datatype outcome = Raised error | Returned | Pending

text \<open>
  The effects a cycle had when it raised: the sync cycle has written its command and
  called \<^verbatim>\<open>read\<close>, the input cycle has pumped the events.
\<close>

definition failed_sync :: "server \<Rightarrow> server" where
  "failed_sync srv = do_effect Read (do_effect (Write [0x66, 0xA]) srv)"

definition failed_input :: "server \<Rightarrow> server" where
  "failed_input srv = do_effect Pump srv"

text \<open>
  \<^verbatim>\<open>asyncio.gather(self.sync_frequencies(), self.handle_controller_input())\<close> on a list of
  events, with the step index of the input loop. Both loops test \<^verbatim>\<open>self.running\<close> before
  each cycle; an exception of a cycle leaves \<^verbatim>\<open>gather\<close>. When the events are used up the
  loops are still running. A cycle is one step, placed where it assigns \<open>last_frequency\<close>:
  neither loop awaits between reading and assigning that attribute. Where a sync cycle
  waits for its response while an input cycle runs, the log may therefore show the two
  writes in the other order than the connection saw them.
\<close>

fun gather :: "event list \<Rightarrow> int \<Rightarrow> server \<Rightarrow> outcome \<times> int \<times> server" where
  "gather evs step_index srv =
     (if \<not> running srv then (Returned, step_index, srv)
      else case evs of
        [] \<Rightarrow> (Pending, step_index, srv)
      | SyncCycle rd # rest \<Rightarrow>
          (case sync_cycle rd srv of
             Inl e \<Rightarrow> (Raised e, step_index, failed_sync srv)
           | Inr srv1 \<Rightarrow> gather rest step_index srv1)
      | InputCycle hat # rest \<Rightarrow>
          (case input_cycle hat step_index srv of
             Inl e \<Rightarrow> (Raised e, step_index, failed_input srv)
           | Inr (step_index1, srv1) \<Rightarrow> gather rest step_index1 srv1)
      | Interrupt # rest \<Rightarrow> (Raised KeyboardInterrupt, step_index, srv))"

declare gather.simps [simp del]

text \<open>\<^verbatim>\<open>start\<close>: the step index of the input loop begins at 0.\<close>

definition start :: "error option \<Rightarrow> event list \<Rightarrow> server \<Rightarrow> outcome \<times> server" where
  "start opening evs srv =
     (case open_connection opening srv of
        Inl e \<Rightarrow> (Raised e, srv)
      | Inr srv1 \<Rightarrow>
          (case gather evs 0 (srv1\<lparr>running := True\<rparr>) of
             (out, step_index, srv2) \<Rightarrow> (out, srv2)))"

text \<open>
  \<^verbatim>\<open>close_connection\<close>, given what \<^verbatim>\<open>writer.close()\<close> does (\<open>None\<close> when it returns). Without
  a writer the attribute access raises.
\<close>

definition close_connection :: "error option \<Rightarrow> server \<Rightarrow> outcome \<times> server" where
  "close_connection closing srv =
     (if \<not> connected srv then (Raised AttributeError, srv)
      else case closing of
        Some e \<Rightarrow> (Raised e, do_effect Close srv)
      | None \<Rightarrow> (Returned, do_effect WaitClosed (do_effect Close srv)))"

definition stop :: "error option \<Rightarrow> server \<Rightarrow> outcome \<times> server" where
  "stop closing srv = close_connection closing (srv\<lparr>running := False\<rparr>)"

text \<open>
  The main block: \<^verbatim>\<open>stop\<close> is called in the handler of \<^verbatim>\<open>KeyboardInterrupt\<close> and nowhere
  else.
\<close>

definition main ::
    "bool \<Rightarrow> error option \<Rightarrow> event list \<Rightarrow> error option \<Rightarrow> outcome \<times> server" where
  "main has_joystick opening evs closing =
     (case start opening evs (init has_joystick) of
        (out, srv) \<Rightarrow>
          if out = Raised KeyboardInterrupt then stop closing srv else (out, srv))"



section \<open>Integer lines\<close>

text \<open>
  What counts as a decimal integer on the last line: an optional sign, then decimal digits,
  where single underscores may stand between two digits.
\<close>

definition unsigned_part :: "str \<Rightarrow> str" where
  "unsigned_part s = (case s of [] \<Rightarrow> [] | c # r \<Rightarrow> if c = 0x2B \<or> c = 0x2D then r else s)"

definition int_literal :: "str \<Rightarrow> bool" where
  "int_literal s \<longleftrightarrow>
     unsigned_part s \<noteq> []
     \<and> list_all digit_or_underscore (unsigned_part s)
     \<and> hd (unsigned_part s) \<noteq> underscore
     \<and> last (unsigned_part s) \<noteq> underscore
     \<and> \<not> double_underscore (unsigned_part s)"

text \<open>
  The last line as the specification describes it: trailing white space stripped from the
  whole text, the text split at the line feeds, the last piece stripped. The source
  strips the text at both ends instead (\<open>frequency_str\<close>).
\<close>

definition last_line :: "str \<Rightarrow> str" where
  "last_line txt = py_strip (last (split_nl (py_rstrip txt)))"

text \<open>
  A plain decimal literal, a sign (empty, plus or minus) before the ASCII digits of \<open>ds\<close>,
  and the integer it denotes in positional notation.
\<close>

definition decimal_literal :: "str \<Rightarrow> nat list \<Rightarrow> str" where
  "decimal_literal sign ds = sign @ map ((+) 0x30) ds"

definition decimal_value :: "str \<Rightarrow> nat list \<Rightarrow> int" where
  "decimal_value sign ds =
     (if sign = [0x2D] then - 1 else 1)
       * int (\<Sum>i<length ds. ds ! i * 10 ^ (length ds - Suc i))"

section \<open>Facts about the library functions\<close>

lemma py_todecimal_ascii: "d < 10 \<Longrightarrow> py_todecimal (48 + d) = Some d"
  by (simp add: py_todecimal_def decimal_zeros_def)

lemma digit_or_underscore_ascii: "d < 10 \<Longrightarrow> digit_or_underscore (48 + d)"
  by (simp add: digit_or_underscore_def py_todecimal_ascii)

lemma int_isspace_ascii_digit: "d < 10 \<Longrightarrow> \<not> int_isspace (48 + d)"
  by (auto simp: int_isspace_def)

lemma no_underscore_no_double: "underscore \<notin> set s \<Longrightarrow> \<not> double_underscore s"
  by (induction s rule: double_underscore.induct) auto

lemma digit_values_ascii:
  "\<forall>d\<in>set ds. d < 10 \<Longrightarrow> digit_values (map ((+) 48) ds) = ds"
  by (induction ds) (auto simp: digit_values_def underscore_def py_todecimal_ascii)

lemma underscore_not_ascii_digit:
  "\<forall>d\<in>set ds. d < 10 \<Longrightarrow> underscore \<notin> set (map ((+) 48) ds)"
  by (auto simp: underscore_def)

lemma py_int_body:
  assumes "s2 = map ((+) 48) ds" and "ds \<noteq> []" and "\<forall>d\<in>set ds. d < 10"
    and "length ds \<le> 4300"
  shows "\<not> (takeWhile digit_or_underscore s2 = []
            \<or> hd (takeWhile digit_or_underscore s2) = underscore
            \<or> last (takeWhile digit_or_underscore s2) = underscore
            \<or> double_underscore (takeWhile digit_or_underscore s2)
            \<or> int_max_str_digits < length (digit_values (takeWhile digit_or_underscore s2))
            \<or> dropWhile int_isspace (dropWhile digit_or_underscore s2) \<noteq> [])"
    and "digit_values (takeWhile digit_or_underscore s2) = ds"
proof -
  have all: "\<forall>c\<in>set s2. digit_or_underscore c"
    using assms(1,3) by (auto simp: digit_or_underscore_ascii)
  then have tw: "takeWhile digit_or_underscore s2 = s2"
    by (simp add: takeWhile_eq_all_conv)
  from all have dw: "dropWhile digit_or_underscore s2 = []"
    by simp
  have nu: "underscore \<notin> set s2"
    using assms(1,3) underscore_not_ascii_digit by simp
  have ne: "s2 \<noteq> []" using assms(1,2) by simp
  then have "hd s2 \<in> set s2" and "last s2 \<in> set s2" by simp_all
  with nu have h: "hd s2 \<noteq> underscore" and l: "last s2 \<noteq> underscore" by auto
  have dv: "digit_values s2 = ds"
    using assms(1,3) digit_values_ascii by simp
  show "digit_values (takeWhile digit_or_underscore s2) = ds"
    by (simp only: tw dv)
  show "\<not> (takeWhile digit_or_underscore s2 = []
            \<or> hd (takeWhile digit_or_underscore s2) = underscore
            \<or> last (takeWhile digit_or_underscore s2) = underscore
            \<or> double_underscore (takeWhile digit_or_underscore s2)
            \<or> int_max_str_digits < length (digit_values (takeWhile digit_or_underscore s2))
            \<or> dropWhile int_isspace (dropWhile digit_or_underscore s2) \<noteq> [])"
    unfolding tw dw
    using ne h l dv assms(4) no_underscore_no_double [OF nu]
    by (simp add: int_max_str_digits_def)
qed

lemma py_int_unsigned:
  assumes "ds \<noteq> []" and "\<forall>d\<in>set ds. d < 10" and "length ds \<le> 4300"
  shows "py_int (map ((+) 48) ds) = Inr (int (horner ds))"
proof -
  obtain d r where ds: "ds = d # r" using assms(1) by (cases ds) auto
  then have d: "d < 10" using assms(2) by simp
  have s1: "dropWhile int_isspace (map ((+) 48) ds) = map ((+) 48) ds"
    using ds int_isspace_ascii_digit [OF d] by simp
  have hd: "hd (map ((+) 48) ds) = 48 + d" using ds by simp
  have nosign: "48 + d \<noteq> 0x2B" "48 + d \<noteq> 0x2D" using d by simp_all
  note b = py_int_body [OF refl assms]
  show ?thesis
    unfolding py_int_def Let_def s1 hd
    using b nosign assms(1) by simp
qed

lemma py_int_signed:
  assumes "ds \<noteq> []" and "\<forall>d\<in>set ds. d < 10" and "length ds \<le> 4300"
  shows "py_int (0x2D # map ((+) 48) ds) = Inr (- int (horner ds))"
proof -
  have s1: "dropWhile int_isspace (0x2D # map ((+) 48) ds) = 0x2D # map ((+) 48) ds"
    by (simp add: int_isspace_def)
  note b = py_int_body [OF refl assms]
  show ?thesis
    unfolding py_int_def Let_def s1
    using b by simp
qed

lemma int_isspace_py_isspace: "int_isspace c \<Longrightarrow> py_isspace c"
  by (auto simp: int_isspace_def py_isspace_def split: if_splits)

lemma last_dropWhile: "dropWhile P xs \<noteq> [] \<Longrightarrow> last (dropWhile P xs) = last xs"
  by (metis last_appendR takeWhile_dropWhile_id)

lemma py_rstrip_last: "py_rstrip s \<noteq> [] \<Longrightarrow> \<not> py_isspace (last (py_rstrip s))"
  unfolding py_rstrip_def
  by (metis hd_dropWhile last_rev rev_is_Nil_conv)

lemma py_rstrip_hd: "py_rstrip s \<noteq> [] \<Longrightarrow> hd (py_rstrip s) = hd s"
proof -
  assume ne: "py_rstrip s \<noteq> []"
  then have d: "dropWhile py_isspace (rev s) \<noteq> []" by (simp add: py_rstrip_def)
  then have "last (dropWhile py_isspace (rev s)) = last (rev s)" by (rule last_dropWhile)
  moreover have "s \<noteq> []" using d by auto
  ultimately show ?thesis
    using d by (simp add: py_rstrip_def hd_rev last_rev)
qed

lemma py_strip_stripped:
  assumes "py_strip s \<noteq> []"
  shows "\<not> py_isspace (hd (py_strip s))" and "\<not> py_isspace (last (py_strip s))"
proof -
  have ne: "dropWhile py_isspace s \<noteq> []"
  proof
    assume "dropWhile py_isspace s = []"
    then have "py_strip s = []"
      by (simp only: py_strip_def py_rstrip_def rev.simps dropWhile.simps)
    with assms show False by simp
  qed
  show "\<not> py_isspace (last (py_strip s))"
    using assms py_rstrip_last by (simp add: py_strip_def)
  show "\<not> py_isspace (hd (py_strip s))"
    using assms py_rstrip_hd [of "dropWhile py_isspace s"] hd_dropWhile [OF ne]
    by (simp add: py_strip_def)
qed

lemma dropWhile_hd_id: "s = [] \<or> \<not> P (hd s) \<Longrightarrow> dropWhile P s = s"
  by (cases s) auto

lemma py_int_not_literal:
  assumes st: "s = [] \<or> (\<not> py_isspace (hd s) \<and> \<not> py_isspace (last s))"
    and nl: "\<not> int_literal s"
  shows "py_int s = Inl ValueError"
proof -
  have s1: "dropWhile int_isspace s = s"
    using st int_isspace_py_isspace by (intro dropWhile_hd_id) auto
  define t where "t = unsigned_part s"
  have s2: "(if s \<noteq> [] \<and> (hd s = 0x2B \<or> hd s = 0x2D) then tl s else s) = t"
    by (cases s) (auto simp: t_def unsigned_part_def)
  have bad: "takeWhile digit_or_underscore t = []
            \<or> hd (takeWhile digit_or_underscore t) = underscore
            \<or> last (takeWhile digit_or_underscore t) = underscore
            \<or> double_underscore (takeWhile digit_or_underscore t)
            \<or> int_max_str_digits < length (digit_values (takeWhile digit_or_underscore t))
            \<or> dropWhile int_isspace (dropWhile digit_or_underscore t) \<noteq> []"
  proof (cases "list_all digit_or_underscore t")
    case True
    then have tw: "takeWhile digit_or_underscore t = t"
      by (simp add: list_all_iff)
    from nl True have "t = [] \<or> hd t = underscore \<or> last t = underscore \<or> double_underscore t"
      by (auto simp: int_literal_def t_def)
    then show ?thesis unfolding tw by blast
  next
    case False
    then have rest: "dropWhile digit_or_underscore t \<noteq> []"
      by (simp add: list_all_iff)
    then have tne: "t \<noteq> []" by auto
    have "last (dropWhile digit_or_underscore t) = last t"
      using rest by (rule last_dropWhile)
    moreover have "last t = last s" and "s \<noteq> []"
      using tne by (cases s; auto simp: t_def unsigned_part_def split: if_splits)+
    ultimately have "\<not> int_isspace (last (dropWhile digit_or_underscore t))"
      using st int_isspace_py_isspace by auto
    then have "dropWhile int_isspace (dropWhile digit_or_underscore t) \<noteq> []"
      using rest by (metis dropWhile_eq_Nil_conv last_in_set)
    then show ?thesis by blast
  qed
  show ?thesis
    unfolding py_int_def Let_def s1 s2
    using bad by (simp only: if_True)
qed

lemma if_Inl_Inr: "(if c then Inl a else Inr v) = Inl e \<Longrightarrow> e = a"
  by (simp split: if_splits)

lemma py_int_error: "py_int s = Inl e \<Longrightarrow> e = ValueError"
  unfolding py_int_def Let_def by (rule if_Inl_Inr)

lemma frequency_str_stripped:
  "frequency_str text = []
   \<or> (\<not> py_isspace (hd (frequency_str text)) \<and> \<not> py_isspace (last (frequency_str text)))"
  unfolding frequency_str_def using py_strip_stripped by blast

lemma py_todecimal_low:
  "c < 0x660 \<Longrightarrow> \<not> (48 \<le> c \<and> c < 58) \<Longrightarrow> py_todecimal c = None"
  by (simp add: py_todecimal_def decimal_zeros_def)







lemma write_f: "write_command (lit ''f'' @ [0xA]) srv = Inr (do_effect (Write [0x66, 0xA]) srv)"
  by (simp add: write_command_def lit_def encode_char_def)

lemma read_frequency_ok:
  "get_rig_data_response response = Inr freq \<Longrightarrow>
     read_frequency (Inr response) srv
       = Inr (freq, do_effect Read (do_effect (Write [0x66, 0xA]) srv))"
  by (simp add: read_frequency_def get_rig_data_def write_f)

lemma response_digits:
  assumes "decode_utf8 response = Some txt" and "frequency_str txt = map ((+) 48) ds"
    and "ds \<noteq> []" and "\<forall>d\<in>set ds. d < 10" and "length ds \<le> 4300"
  shows "get_rig_data_response response = Inr (Some (int (horner ds)))"
  using assms(1,2) py_int_unsigned [OF assms(3,4,5)]
  by (simp add: get_rig_data_response_def)

lemma response_one_digit:
  "get_rig_data_response [0x30, 0xA] = Inr (Some 0)"
  "get_rig_data_response [0x37, 0xA] = Inr (Some 7)"
proof -
  have fs: "frequency_str [48, 10] = map ((+) 48) [0]" "frequency_str [55, 10] = map ((+) 48) [7]"
    by (simp_all add: frequency_str_def py_strip_def py_rstrip_def py_isspace_def)
  have dec: "decode_utf8 [0x30, 0xA] = Some [48, 10]" "decode_utf8 [0x37, 0xA] = Some [55, 10]"
    by simp_all
  show "get_rig_data_response [0x30, 0xA] = Inr (Some 0)"
    using response_digits [OF dec(1) fs(1)] by (simp add: horner_def)
  show "get_rig_data_response [0x37, 0xA] = Inr (Some 7)"
    using response_digits [OF dec(2) fs(2)] by (simp add: horner_def)
qed

lemma split_nl_nonempty: "split_nl s \<noteq> []"
  by (induction s) auto

lemma split_nl_single: "0xA \<notin> set s \<Longrightarrow> split_nl s = [s]"
  by (induction s) auto

lemma split_nl_tl: "0xA \<in> set s \<Longrightarrow> tl (split_nl s) \<noteq> []"
  by (induction s) (auto simp: split_nl_nonempty)

lemma last_split_nl_Cons:
  "last (split_nl (c # cs)) =
     (if 0xA \<in> set cs then last (split_nl cs) else if c = 0xA then cs else c # cs)"
proof (cases "0xA \<in> set cs")
  case True
  have "last (tl (split_nl cs)) = last (split_nl cs)"
    using split_nl_tl [OF True] by (simp add: last_tl)
  then show ?thesis
    using True split_nl_tl [OF True] split_nl_nonempty [of cs] by simp
next
  case False
  then show ?thesis by (simp add: split_nl_single)
qed

lemma last_split_nl: "last (split_nl s) = rev (takeWhile (\<lambda>c. c \<noteq> 0xA) (rev s))"
proof (induction s)
  case Nil
  show ?case by simp
next
  case (Cons c cs)
  show ?case
  proof (cases "0xA \<in> set cs")
    case True
    then obtain x where "x \<in> set (rev cs)" and "\<not> x \<noteq> 0xA" by auto
    then have "takeWhile (\<lambda>c. c \<noteq> 0xA) (rev cs @ [c]) = takeWhile (\<lambda>c. c \<noteq> 0xA) (rev cs)"
      by (rule takeWhile_append1)
    with True Cons show ?thesis by (simp add: last_split_nl_Cons del: split_nl.simps)
  next
    case False
    then have "\<And>x. x \<in> set (rev cs) \<Longrightarrow> x \<noteq> 0xA" by auto
    then have "takeWhile (\<lambda>c. c \<noteq> 0xA) (rev cs @ [c])
        = rev cs @ takeWhile (\<lambda>c. c \<noteq> 0xA) [c]"
      by (rule takeWhile_append2)
    with False show ?thesis by (simp add: last_split_nl_Cons del: split_nl.simps)
  qed
qed

lemma last_split_nl_append:
  "last (split_nl (xs @ ys)) =
     (if 0xA \<in> set ys then last (split_nl ys)
      else rev (takeWhile (\<lambda>c. c \<noteq> 0xA) (rev xs)) @ ys)"
proof (cases "0xA \<in> set ys")
  case True
  then obtain x where "x \<in> set (rev ys)" and "\<not> x \<noteq> 0xA" by auto
  then have "takeWhile (\<lambda>c. c \<noteq> 0xA) (rev ys @ rev xs) = takeWhile (\<lambda>c. c \<noteq> 0xA) (rev ys)"
    by (rule takeWhile_append1)
  with True show ?thesis by (simp add: last_split_nl)
next
  case False
  then have "\<And>x. x \<in> set (rev ys) \<Longrightarrow> x \<noteq> 0xA" by auto
  then have "takeWhile (\<lambda>c. c \<noteq> 0xA) (rev ys @ rev xs)
      = rev ys @ takeWhile (\<lambda>c. c \<noteq> 0xA) (rev xs)"
    by (rule takeWhile_append2)
  with False show ?thesis by (simp add: last_split_nl)
qed

lemma py_rstrip_append:
  assumes "py_rstrip ys \<noteq> []"
  shows "py_rstrip (xs @ ys) = xs @ py_rstrip ys"
proof -
  from assms have "dropWhile py_isspace (rev ys) \<noteq> []" by (simp add: py_rstrip_def)
  then obtain x where "x \<in> set (rev ys)" and "\<not> py_isspace x"
    by (metis dropWhile_eq_Nil_conv)
  then have "dropWhile py_isspace (rev ys @ rev xs) = dropWhile py_isspace (rev ys) @ rev xs"
    by (rule dropWhile_append1)
  then show ?thesis by (simp add: py_rstrip_def)
qed

lemma py_strip_space_prefix:
  assumes "\<And>x. x \<in> set l \<Longrightarrow> py_isspace x"
  shows "py_strip (l @ b) = py_strip b"
  unfolding py_strip_def using assms by simp

lemma frequency_str_last_line: "frequency_str txt = last_line txt"
proof -
  define w where "w = takeWhile py_isspace txt"
  define a where "a = dropWhile py_isspace txt"
  have parts: "txt = w @ a" by (simp add: w_def a_def)
  have wsp: "\<And>x. x \<in> set w \<Longrightarrow> py_isspace x"
    unfolding w_def by (rule set_takeWhileD [THEN conjunct2])
  have fs: "frequency_str txt = py_strip (last (split_nl (py_rstrip a)))"
    by (simp add: frequency_str_def py_strip_def a_def)
  show ?thesis
  proof (cases "py_rstrip a = []")
    case True
    then have "\<forall>x\<in>set a. py_isspace x"
      by (simp add: py_rstrip_def)
    moreover have "a \<noteq> [] \<Longrightarrow> \<not> py_isspace (hd a)"
      unfolding a_def by (rule hd_dropWhile)
    ultimately have "a = []" by (cases a) auto
    then have "\<forall>x\<in>set txt. py_isspace x" using parts wsp by simp
    then have "py_rstrip txt = []" by (simp add: py_rstrip_def)
    with True fs show ?thesis by (simp add: last_line_def)
  next
    case False
    define b where "b = py_rstrip a"
    have "py_rstrip (w @ a) = w @ py_rstrip a"
      using False by (rule py_rstrip_append)
    then have r: "py_rstrip txt = w @ b"
      using parts by (simp add: b_def)
    show ?thesis
    proof (cases "0xA \<in> set b")
      case True
      then show ?thesis
        unfolding fs last_line_def r b_def [symmetric] by (simp add: last_split_nl_append)
    next
      case nonl: False
      have "\<And>x. x \<in> set (rev (takeWhile (\<lambda>c. c \<noteq> 0xA) (rev w))) \<Longrightarrow> py_isspace x"
        using wsp by (auto dest: set_takeWhileD)
      then have "py_strip (rev (takeWhile (\<lambda>c. c \<noteq> 0xA) (rev w)) @ b) = py_strip b"
        by (rule py_strip_space_prefix)
      then show ?thesis
        unfolding fs last_line_def r b_def [symmetric]
        using nonl by (simp add: last_split_nl_append split_nl_single)
    qed
  qed
qed

lemma horner_snoc: "horner (ds @ [d]) = 10 * horner ds + d"
  by (simp add: horner_def)

lemma horner_sum: "horner ds = (\<Sum>i<length ds. ds ! i * 10 ^ (length ds - Suc i))"
proof (induction ds rule: rev_induct)
  case Nil
  show ?case by (simp add: horner_def)
next
  case (snoc d ds)
  have "(\<Sum>i<length ds. (ds @ [d]) ! i * 10 ^ (length ds - i))
      = (\<Sum>i<length ds. 10 * (ds ! i * 10 ^ (length ds - Suc i)))"
  proof (rule sum.cong)
    fix i assume "i \<in> {..<length ds}"
    then have i: "i < length ds" by simp
    then have "length ds - i = Suc (length ds - Suc i)" by simp
    then show "(ds @ [d]) ! i * 10 ^ (length ds - i) = 10 * (ds ! i * 10 ^ (length ds - Suc i))"
      using i by (simp add: nth_append)
  qed simp
  then show ?case
    using snoc by (simp add: horner_snoc sum_distrib_left)
qed

lemma py_int_plus:
  assumes "ds \<noteq> []" and "\<forall>d\<in>set ds. d < 10" and "length ds \<le> 4300"
  shows "py_int (0x2B # map ((+) 48) ds) = Inr (int (horner ds))"
proof -
  have s1: "dropWhile int_isspace (0x2B # map ((+) 48) ds) = 0x2B # map ((+) 48) ds"
    by (simp add: int_isspace_def)
  note b = py_int_body [OF refl assms]
  show ?thesis
    unfolding py_int_def Let_def s1
    using b by simp
qed

lemma decode_utf8_length: "decode_utf8 bs = Some cs \<Longrightarrow> length cs \<le> length bs"
proof (induction "length bs" arbitrary: bs cs rule: less_induct)
  case less
  show ?case
  proof (cases bs)
    case Nil
    with less.prems show ?thesis by simp
  next
    case (Cons b r)
    have IH: "decode_utf8 r' = Some cs' \<Longrightarrow> length r' < length (b # r) \<longrightarrow> length cs' \<le> length r'"
      for r' cs'
      using less.hyps [of r' cs'] Cons by simp
    from less.prems show ?thesis
      unfolding Cons
      by (auto split: if_splits list.splits dest!: IH)
  qed
qed

lemma length_py_rstrip: "length (py_rstrip s) \<le> length s"
  using length_dropWhile_le [of py_isspace "rev s"] by (simp add: py_rstrip_def)

lemma length_py_strip: "length (py_strip s) \<le> length s"
  using length_py_rstrip [of "dropWhile py_isspace s"] length_dropWhile_le [of py_isspace s]
  by (simp add: py_strip_def)

lemma length_last_split_nl: "length (last (split_nl s)) \<le> length s"
  using length_takeWhile_le [of "\<lambda>c. c \<noteq> 0xA" "rev s"] by (simp add: last_split_nl)

lemma length_frequency_str: "length (frequency_str s) \<le> length s"
  unfolding frequency_str_def
  using length_py_strip [of "last (split_nl (py_strip s))"]
    length_last_split_nl [of "py_strip s"] length_py_strip [of s]
  by linarith

section \<open>Facts about the loops\<close>


lemma gather_Nil: "running srv \<Longrightarrow> gather [] i srv = (Pending, i, srv)"
  by (subst gather.simps) simp


lemma gather_Input:
  "running srv \<Longrightarrow> gather (InputCycle hat # rest) i srv =
     (case input_cycle hat i srv of
        Inl e \<Rightarrow> (Raised e, i, failed_input srv)
      | Inr (i1, srv1) \<Rightarrow> gather rest i1 srv1)"
  by (subst gather.simps) simp










section \<open>Properties of the response handling\<close>

text \<open>
  Claim C1. For a response of at most 1024 bytes (what \<^verbatim>\<open>reader.read(1024)\<close> returns) that
  decodes as UTF-8 and whose last line is a decimal integer literal, \<^verbatim>\<open>get_rig_data\<close>
  returns exactly the integer the literal denotes, whatever the lines before it. The
  witness is the response \<^verbatim>\<open>OK\<close>, line feed, \<^verbatim>\<open>145000000\<close>, line feed.
\<close>

theorem last_line_integer:
  assumes "length response \<le> 1024"
    and "decode_utf8 response = Some txt"
    and "last_line txt = decimal_literal sign ds"
    and "sign = [] \<or> sign = [0x2B] \<or> sign = [0x2D]"
    and "ds \<noteq> []" and "\<forall>d\<in>set ds. d < 10"
  shows "get_rig_data_response response = Inr (Some (decimal_value sign ds))"
proof -
  have line: "frequency_str txt = sign @ map ((+) 48) ds"
    using assms(3) by (simp add: frequency_str_last_line decimal_literal_def)
  have "length ds \<le> length (frequency_str txt)"
    by (simp add: line)
  also have "\<dots> \<le> length txt" by (rule length_frequency_str)
  also have "\<dots> \<le> length response" using assms(2) by (rule decode_utf8_length)
  finally have len: "length ds \<le> 4300" using assms(1) by simp
  have v: "int (\<Sum>i<length ds. ds ! i * 10 ^ (length ds - Suc i)) = int (horner ds)"
    by (simp only: horner_sum)
  from assms(4) have "py_int (frequency_str txt) = Inr (decimal_value sign ds)"
  proof (elim disjE)
    assume "sign = []"
    then show ?thesis
      unfolding line decimal_value_def v
      using py_int_unsigned [OF assms(5,6) len] by simp
  next
    assume "sign = [0x2B]"
    then show ?thesis
      unfolding line decimal_value_def v
      using py_int_plus [OF assms(5,6) len] by simp
  next
    assume "sign = [0x2D]"
    then show ?thesis
      unfolding line decimal_value_def v
      using py_int_signed [OF assms(5,6) len] by simp
  qed
  then show ?thesis
    using assms(2) by (simp add: get_rig_data_response_def)
qed

theorem last_line_integer_witness:
  "get_rig_data_response
     [0x4F, 0x4B, 0xA, 0x31, 0x34, 0x35, 0x30, 0x30, 0x30, 0x30, 0x30, 0x30, 0xA]
   = Inr (Some 145000000)"
proof -
  let ?ds = "[1, 4, 5, 0, 0, 0, 0, 0, 0] :: nat list"
  have len: "length [0x4F, 0x4B, 0xA, 0x31, 0x34, 0x35, 0x30, 0x30, 0x30, 0x30, 0x30, 0x30,
      0xA :: byte] \<le> 1024"
    by simp
  have dec: "decode_utf8
      [0x4F, 0x4B, 0xA, 0x31, 0x34, 0x35, 0x30, 0x30, 0x30, 0x30, 0x30, 0x30, 0xA]
      = Some [79, 75, 10, 49, 52, 53, 48, 48, 48, 48, 48, 48, 10]"
    by simp
  have line: "last_line [79, 75, 10, 49, 52, 53, 48, 48, 48, 48, 48, 48, 10]
      = decimal_literal [] ?ds"
    by (simp add: last_line_def py_strip_def py_rstrip_def py_isspace_def decimal_literal_def)
  have sign: "([]::str) = [] \<or> ([]::str) = [0x2B] \<or> ([]::str) = [0x2D]" by simp
  have ds: "?ds \<noteq> []" "\<forall>d\<in>set ?ds. d < 10" by simp_all
  have v: "decimal_value [] ?ds = 145000000"
    unfolding decimal_value_def horner_sum [symmetric] by (simp add: horner_def)
  show ?thesis
    using last_line_integer [OF len dec line sign ds] unfolding v .
qed


text \<open>
  Claim C2, as amended. For a response that decodes as UTF-8, \<^verbatim>\<open>get_rig_data\<close> never
  raises, and it returns \<^verbatim>\<open>None\<close> whenever the last line is not a decimal integer. A response
  that is not valid UTF-8 makes the decoding raise \<^verbatim>\<open>UnicodeDecodeError\<close>, outside the \<^verbatim>\<open>try\<close>,
  so the exception leaves \<^verbatim>\<open>get_rig_data\<close>.
\<close>

theorem malformed_last_line:
  "(decode_utf8 response = Some text \<and> \<not> int_literal (frequency_str text)
      \<longrightarrow> get_rig_data_response response = Inr None)
   \<and> (decode_utf8 response = Some text \<longrightarrow> (\<exists>r. get_rig_data_response response = Inr r))
   \<and> (decode_utf8 response = None
      \<longrightarrow> get_rig_data_response response = Inl UnicodeDecodeError)"
proof (intro conjI impI)
  assume "decode_utf8 response = Some text \<and> \<not> int_literal (frequency_str text)"
  then show "get_rig_data_response response = Inr None"
    using py_int_not_literal [OF frequency_str_stripped, of "text"]
    by (simp add: get_rig_data_response_def)
next
  assume d: "decode_utf8 response = Some text"
  show "\<exists>r. get_rig_data_response response = Inr r"
  proof (cases "py_int (frequency_str text)")
    case (Inl e)
    then have "e = ValueError" by (rule py_int_error)
    with Inl d show ?thesis by (simp add: get_rig_data_response_def)
  next
    case (Inr n)
    with d show ?thesis by (simp add: get_rig_data_response_def)
  qed
next
  assume "decode_utf8 response = None"
  then show "get_rig_data_response response = Inl UnicodeDecodeError"
    by (simp add: get_rig_data_response_def)
qed

theorem malformed_last_line_witness:
  "get_rig_data_response [0x4F, 0x4B, 0xA] = Inr None"
proof -
  have line: "frequency_str [79, 75, 10] = [79, 75]"
    by (simp add: frequency_str_def py_strip_def py_rstrip_def py_isspace_def)
  have bad: "\<not> int_literal [79, 75]"
    by (simp add: int_literal_def unsigned_part_def digit_or_underscore_def
        py_todecimal_low underscore_def)
  show ?thesis
    using malformed_last_line [of "[0x4F, 0x4B, 0xA]" "[79, 75, 10]"] line bad
    by simp
qed

text \<open>The byte \<open>0xFF\<close> alone is no UTF-8: the claim as stated fails there.\<close>

theorem invalid_utf8_raises: "get_rig_data_response [0xFF] = Inl UnicodeDecodeError"
  by (simp add: get_rig_data_response_def)

section \<open>Properties of the sync loop\<close>

text \<open>
  Claim C3, as amended. In a cycle whose response decodes, a decoded value other than 0
  becomes \<open>last_frequency\<close> (also when none was known before); a decoded 0 is false in the
  test \<^verbatim>\<open>if freq and ...\<close> and leaves \<open>last_frequency\<close> as it was, and so does a failed
  decode.
\<close>

theorem sync_update:
  assumes "get_rig_data_response response = Inr freq"
  shows "\<exists>srv'. sync_cycle (Inr response) srv = Inr srv'
           \<and> last_frequency srv' =
               (case freq of
                  None \<Rightarrow> last_frequency srv
                | Some f \<Rightarrow> if f \<noteq> 0 then Some f else last_frequency srv)"
  unfolding sync_cycle_def read_frequency_ok [OF assms]
  by (cases freq) (auto simp: do_effect_def)

theorem sync_update_witness:
  "\<exists>srv'. sync_cycle (Inr [0x37, 0xA]) (init True) = Inr srv' \<and> last_frequency srv' = Some 7"
  using sync_update [of "[0x37, 0xA]" "Some 7" "init True"] response_one_digit(2)
  by simp

text \<open>
  The response \<^verbatim>\<open>0\<close> decodes to the integer 0, which differs from the absent
  \<open>last_frequency\<close> of a fresh server, and the cycle does not store it.
\<close>

theorem zero_frequency_not_stored:
  "get_rig_data_response [0x30, 0xA] = Inr (Some 0)
   \<and> last_frequency (init True) \<noteq> Some 0
   \<and> sync_cycle (Inr [0x30, 0xA]) (init True)
       = Inr (init True\<lparr>effects := [Write [0x66, 0xA], Read]\<rparr>)
   \<and> last_frequency (init True\<lparr>effects := [Write [0x66, 0xA], Read]\<rparr>) = None"
proof -
  have d: "get_rig_data_response [0x30, 0xA] = Inr (Some 0)"
    using response_one_digit(1) by simp
  show ?thesis
    unfolding sync_cycle_def read_frequency_ok [OF d]
    using d by (simp add: do_effect_def init_def)
qed

section \<open>Properties of the input loop\<close>

lemma length_frequency_steps: "int (length frequency_steps) = 3"
  by (simp add: frequency_steps_def)

text \<open>
  Claim C5. The step index stays within \<open>0 .. |steps| - 1\<close>: in a cycle that dispatches up
  or down (no left or right press), from any index in range, the new index is in range;
  up from the last index gives 0 and down from 0 gives the last index, never a negative
  one.
\<close>

theorem step_index_wraps:
  assumes "joystick srv" and "fst hat \<noteq> - 1" and "fst hat \<noteq> 1"
    and "0 \<le> i" and "i < int (length frequency_steps)"
  shows "(snd hat = 1 \<longrightarrow>
            (\<exists>j srv'. input_cycle hat i srv = Inr (j, srv') \<and> 0 \<le> j
               \<and> j < int (length frequency_steps)
               \<and> j = (if i = int (length frequency_steps) - 1 then 0 else i + 1)))
       \<and> (snd hat = - 1 \<longrightarrow>
            (\<exists>j srv'. input_cycle hat i srv = Inr (j, srv') \<and> 0 \<le> j
               \<and> j < int (length frequency_steps)
               \<and> j = (if i = 0 then int (length frequency_steps) - 1 else i - 1)))"
proof -
  have up: "(i + 1) mod 3 = (if i = 2 then 0 else i + 1)"
    using assms(4,5) by (auto simp: length_frequency_steps)
  have down: "(i - 1) mod 3 = (if i = 0 then 2 else i - 1)"
    using assms(4,5) by (auto simp: length_frequency_steps)
  show ?thesis
    using assms up down
    by (auto simp: input_cycle_def dispatch_def do_effect_def length_frequency_steps)
qed

theorem step_index_wraps_witness:
  "(\<exists>srv'. input_cycle (0, 1) 2 (init True) = Inr (0, srv'))
   \<and> (\<exists>srv'. input_cycle (0, - 1) 0 (init True) = Inr (2, srv'))"
  using step_index_wraps [of "init True" "(0, 1)" 2]
    step_index_wraps [of "init True" "(0, - 1)" 0]
  by (simp add: init_def frequency_steps_def)



text \<open>
  Claim C10. A cycle that dispatches up or down changes the step index only: the server
  object is the one before the cycle but for the event pump in the log, so
  \<open>last_frequency\<close> is unchanged and nothing is written to the connection.
\<close>

theorem step_change_frame:
  assumes "joystick srv" and "fst hat \<noteq> - 1" and "fst hat \<noteq> 1"
    and "snd hat = 1 \<or> snd hat = - 1"
  shows "\<exists>j. input_cycle hat i srv = Inr (j, srv\<lparr>effects := effects srv @ [Pump]\<rparr>)"
  using assms by (auto simp: input_cycle_def dispatch_def do_effect_def)

theorem step_change_frame_witness:
  "\<exists>j. input_cycle (0, 1) 0 (init True\<lparr>last_frequency := Some 7\<rparr>)
       = Inr (j, init True\<lparr>last_frequency := Some 7, effects := [Pump]\<rparr>)"
  using step_change_frame [of "init True\<lparr>last_frequency := Some 7\<rparr>" "(0, 1)" 0]
  by (simp add: init_def)



section \<open>Properties of \<^verbatim>\<open>start\<close>, \<^verbatim>\<open>stop\<close> and the main block\<close>

text \<open>
  Claim C7. When opening the connection fails, \<^verbatim>\<open>start\<close> raises that exception with the
  server object untouched: \<open>running\<close> has not been set and, whatever events would
  follow, no cycle of either loop has run, so nothing was sent and no event was pumped;
  the whole program ends without any effect and with \<open>running\<close> false. The witness sets
  this against a successful opening, after which a cycle is seen.
\<close>

theorem open_failure_runs_nothing:
  "start (Some e) evs srv = (Raised e, srv)
   \<and> effects (snd (main has_joystick (Some e) evs closing)) = []
   \<and> \<not> running (snd (main has_joystick (Some e) evs closing))"
  by (simp add: start_def open_connection_def main_def stop_def close_connection_def init_def)

theorem open_failure_runs_nothing_witness:
  "start (Some OSError) [SyncCycle (Inr [0x37, 0xA]), InputCycle (0, 1)] (init True)
     = (Raised OSError, init True)
   \<and> start None [InputCycle (0, 1)] (init True)
     = (Pending, init True\<lparr>running := True, connected := True, effects := [Connect, Pump]\<rparr>)"
proof -
  have a: "start (Some OSError) [SyncCycle (Inr [0x37, 0xA]), InputCycle (0, 1)] (init True)
     = (Raised OSError, init True)"
    using open_failure_runs_nothing [of OSError "[SyncCycle (Inr [0x37, 0xA]), InputCycle (0, 1)]"
        "init True"]
    by simp
  let ?s = "init True\<lparr>running := True, connected := True, effects := [Connect]\<rparr>"
  have cyc: "input_cycle (0, 1) 0 ?s = Inr (1, ?s\<lparr>effects := [Connect, Pump]\<rparr>)"
    by (simp add: input_cycle_def Let_def dispatch_def do_effect_def init_def
        frequency_steps_def)
  have b: "start None [InputCycle (0, 1)] (init True)
     = (Pending, init True\<lparr>running := True, connected := True, effects := [Connect, Pump]\<rparr>)"
    unfolding start_def open_connection_def
    using cyc by (simp add: do_effect_def init_def gather_Input gather_Nil)
  from a b show ?thesis by (rule conjI)
qed




end
